theory Spec2Isabelle
  imports Main
begin

section \<open>The upload queue of the App component\<close>

text \<open>
  The client keeps one React state variable, \<open>uploadQueue\<close>, an array of plain
  objects.  An object is created by \<open>handleUpload\<close> with the properties
  \<open>id\<close>, \<open>filename\<close>, \<open>status\<close>, \<open>progress\<close>, \<open>jobId\<close> and \<open>documentId\<close>;
  \<open>message\<close> is added later by the upload error handler or by a status poll.
  The sweeper reads a property \<open>completedAt\<close>.  A property that an object does
  not have reads as \<open>undefined\<close> in JavaScript: for \<open>message\<close> and \<open>completedAt\<close>
  such a property is \<open>None\<close> here.  The job id and the document id start as \<open>null\<close>
  and are later copied from the answer to the upload, where the key may be missing
  (\<open>undefined\<close>), \<open>null\<close> or a string; the three cases are kept apart.
\<close>

datatype js_string = Undefined | Null | Str string

record item =
  id_item :: string
  filename :: string
  status :: string
  progress :: int
  jobId :: js_string
  documentId :: js_string
  message :: "string option"
  completedAt :: "int option"

text \<open>The body of a successful answer of \<open>GET /job/<jobId>/status\<close>, as far as
  the client reads it: \<open>status\<close>, \<open>progress\<close> and \<open>result?.message\<close>.\<close>

record jobStatus =
  js_status :: string
  js_progress :: "int option"
  js_result_message :: "string option"

text \<open>The body of a successful answer of \<open>POST /upload\<close>.\<close>

record uploadResponse =
  job_id :: js_string
  document_id :: js_string

text \<open>A rejected upload: \<open>error.response?.data?.detail\<close> and \<open>error.message\<close>.\<close>

record uploadError =
  detail :: "string option"
  error_message :: string

subsection \<open>JavaScript operators\<close>

text \<open>\<open>x || 0\<close> on a number that may be missing: a missing value and \<open>0\<close> are falsy.\<close>

definition or_zero :: "int option \<Rightarrow> int" where
  "or_zero x = (case x of None \<Rightarrow> 0 | Some v \<Rightarrow> if v = 0 then 0 else v)"

text \<open>\<open>x || d\<close> on a string that may be missing: a missing value and the empty string
  are falsy.\<close>

definition or_string :: "string option \<Rightarrow> string \<Rightarrow> string" where
  "or_string x d = (case x of None \<Rightarrow> d | Some s \<Rightarrow> if s = [] then d else s)"

text \<open>\<open>Date.now() - t > 5000\<close>, where \<open>t\<close> may be \<open>undefined\<close>: the difference is then
  \<open>NaN\<close>, and every comparison with \<open>NaN\<close> is false.\<close>

definition elapsed_gt :: "int \<Rightarrow> int option \<Rightarrow> int \<Rightarrow> bool" where
  "elapsed_gt now t d = (case t of None \<Rightarrow> False | Some t' \<Rightarrow> now - t' > d)"

text \<open>\<open>Number.prototype.toString\<close> on a natural number: its decimal digits.\<close>

fun toString :: "nat \<Rightarrow> string" where
  "toString n =
     (if n < 10 then [''0123456789'' ! n]
      else toString (n div 10) @ [''0123456789'' ! (n mod 10)])"

declare toString.simps [simp del]

text \<open>\<open>xs[idx]?.status\<close>: reading past the end of an array gives \<open>undefined\<close>.\<close>

definition status_at :: "item list \<Rightarrow> nat \<Rightarrow> string option" where
  "status_at xs idx = (if idx < length xs then Some (status (xs ! idx)) else None)"

subsection \<open>checkUploadStatuses\<close>

text \<open>
  The callback that \<open>checkUploadStatuses\<close> maps over the queue.  Its first argument
  is how \<open>axios.get\<close> settled for this entry: \<open>None\<close> when the request was rejected
  (the \<open>catch\<close> branch), \<open>Some\<close> of the answer's body otherwise.  For an entry that
  is already finished no request is made and the argument is not looked at.
\<close>

definition checkItem :: "jobStatus option \<Rightarrow> item \<Rightarrow> item" where
  "checkItem outcome item =
     (if status item = ''completed'' \<or> status item = ''failed'' then item
      else case outcome of
             None \<Rightarrow> item
           | Some jobStatus \<Rightarrow>
               item\<lparr>status := js_status jobStatus,
                    progress := or_zero (js_progress jobStatus),
                    message := Some (or_string (js_result_message jobStatus) [])\<rparr>)"

text \<open>A job id inside a template literal: \<open>undefined\<close> and \<open>null\<close> are rendered as the
  texts \<open>undefined\<close> and \<open>null\<close>.\<close>

definition template :: "js_string \<Rightarrow> string" where
  "template x = (case x of Undefined \<Rightarrow> ''undefined'' | Null \<Rightarrow> ''null'' | Str j \<Rightarrow> j)"

text \<open>The address a poll of an entry goes to.\<close>

definition status_url :: "item \<Rightarrow> string" where
  "status_url item = ''/api/ingest/job/'' @ template (jobId item) @ ''/status''"

text \<open>The requests one pass sends: one for every entry that is not finished, tagged
  with the entry's position in the queue.\<close>

definition requests :: "item list \<Rightarrow> (nat \<times> string) list" where
  "requests queue =
     map (\<lambda>(idx, item). (idx, status_url item))
       (filter (\<lambda>(idx, item). \<not> (status item = ''completed'' \<or> status item = ''failed''))
          (List.enumerate 0 queue))"

text \<open>\<open>Promise.all(uploadQueue.map(...))\<close> on the queue \<open>queue\<close>: the outcome of the request made for the
  entry at position \<open>idx\<close> is \<open>fetches idx\<close>.\<close>

definition updatedQueue :: "(nat \<Rightarrow> jobStatus option) \<Rightarrow> item list \<Rightarrow> item list" where
  "updatedQueue fetches queue =
     map (\<lambda>(idx, item). checkItem (fetches idx) item) (List.enumerate 0 queue)"

text \<open>\<open>updatedQueue.some((item, idx) => item.status === 'completed' &&
  uploadQueue[idx]?.status !== 'completed')\<close>.\<close>

definition hasCompleted :: "item list \<Rightarrow> item list \<Rightarrow> bool" where
  "hasCompleted updated queue =
     list_ex (\<lambda>(idx, item). status item = ''completed''
                \<and> status_at queue idx \<noteq> Some ''completed'')
       (List.enumerate 0 updated)"

text \<open>How often one pass calls \<open>fetchDocuments\<close>, the refresh of the document list.\<close>

definition fetchDocuments_calls :: "(nat \<Rightarrow> jobStatus option) \<Rightarrow> item list \<Rightarrow> nat" where
  "fetchDocuments_calls fetches queue =
     (if hasCompleted (updatedQueue fetches queue) queue then 1 else 0)"

text \<open>The update function that the pass hands to \<open>setTimeout\<close>; \<open>now\<close> is the value of
  \<open>Date.now()\<close> when the timeout fires.\<close>

definition sweep :: "int \<Rightarrow> item list \<Rightarrow> item list" where
  "sweep now prev =
     filter (\<lambda>item. \<not> (status item = ''completed'' \<and> elapsed_gt now (completedAt item) 5000))
       prev"

subsection \<open>handleUpload\<close>

text \<open>The three updates of the queue that \<open>handleUpload\<close> makes: the new entry before
  the request is sent, and one of the two updates by \<open>id\<close> when the request settles.
  \<open>now\<close> is the value of \<open>Date.now()\<close> at the call.\<close>

definition uploadId :: "nat \<Rightarrow> string" where
  "uploadId now = toString now"

definition handleUpload_add :: "nat \<Rightarrow> string \<Rightarrow> item list \<Rightarrow> item list" where
  "handleUpload_add now file_name prev =
     prev @ [\<lparr>id_item = uploadId now, filename = file_name, status = ''uploading'',
              progress = 0, jobId = Null, documentId = Null, message = None,
              completedAt = None\<rparr>]"

definition handleUpload_ok :: "nat \<Rightarrow> uploadResponse \<Rightarrow> item list \<Rightarrow> item list" where
  "handleUpload_ok now response prev =
     map (\<lambda>item. if id_item item = uploadId now
                  then item\<lparr>status := ''queued'', jobId := job_id response,
                            documentId := document_id response\<rparr>
                  else item) prev"

definition handleUpload_failed :: "nat \<Rightarrow> uploadError \<Rightarrow> item list \<Rightarrow> item list" where
  "handleUpload_failed now error prev =
     map (\<lambda>item. if id_item item = uploadId now
                  then item\<lparr>status := ''failed'',
                            message := Some (or_string (detail error) (error_message error))\<rparr>
                  else item) prev"

subsection \<open>The component's state and its events\<close>

text \<open>
  The state of the component as far as the queue is concerned: the queue itself, the
  number of calls of \<open>fetchDocuments\<close> made by passes so far, the passes that have sent
  their requests and wait in \<open>await Promise.all\<close> (each with the queue its closure
  holds), and the number of sweeps scheduled by \<open>setTimeout\<close> and not yet run.
\<close>

record app =
  uploadQueue :: "item list"
  documents_fetched :: nat
  passes :: "item list list"
  timeouts :: nat

definition initial :: app where
  "initial = \<lparr>uploadQueue = [], documents_fetched = 0, passes = [], timeouts = 0\<rparr>"

text \<open>
  The callback of \<open>setInterval\<close>.  The effect installs the interval only when the queue
  is not empty, and installs it anew whenever the queue changes, so the callback's
  closure holds the current queue.  The callback calls \<open>checkUploadStatuses\<close> and does
  not wait for it; the call runs up to its \<open>await\<close>.
\<close>

definition interval_tick :: "app \<Rightarrow> app" where
  "interval_tick s =
     (if uploadQueue s = [] then s else s\<lparr>passes := passes s @ [uploadQueue s]\<rparr>)"

text \<open>The rest of \<open>checkUploadStatuses\<close>, run when the requests of the waiting pass
  number \<open>k\<close> have all settled.  \<open>setUploadQueue(updatedQueue)\<close> sets the queue to the
  one computed from the queue that the closure of the pass holds; unlike the updates of
  \<open>handleUpload\<close> and of the sweeper, which are functions of the current queue, it does
  not look at the current queue.\<close>

definition pass_settles :: "nat \<Rightarrow> (nat \<Rightarrow> jobStatus option) \<Rightarrow> app \<Rightarrow> app" where
  "pass_settles k fetches s =
     (if k < length (passes s)
      then s\<lparr>uploadQueue := updatedQueue fetches (passes s ! k),
             documents_fetched := documents_fetched s + fetchDocuments_calls fetches (passes s ! k),
             passes := take k (passes s) @ drop (Suc k) (passes s),
             timeouts := Suc (timeouts s)\<rparr>
      else s)"

definition timeout_fires :: "int \<Rightarrow> app \<Rightarrow> app" where
  "timeout_fires now s =
     (if timeouts s = 0 then s
      else s\<lparr>uploadQueue := sweep now (uploadQueue s), timeouts := timeouts s - 1\<rparr>)"

datatype event =
    Upload nat string
  | UploadOk nat uploadResponse
  | UploadFailed nat uploadError
  | Tick
  | Settled nat "nat \<Rightarrow> jobStatus option"
  | Timeout int

fun step :: "app \<Rightarrow> event \<Rightarrow> app" where
  "step s (Upload now file_name) = s\<lparr>uploadQueue := handleUpload_add now file_name (uploadQueue s)\<rparr>"
| "step s (UploadOk now response) = s\<lparr>uploadQueue := handleUpload_ok now response (uploadQueue s)\<rparr>"
| "step s (UploadFailed now error) = s\<lparr>uploadQueue := handleUpload_failed now error (uploadQueue s)\<rparr>"
| "step s Tick = interval_tick s"
| "step s (Settled k fetches) = pass_settles k fetches s"
| "step s (Timeout now) = timeout_fires now s"

definition run :: "event list \<Rightarrow> app" where
  "run events = foldl step initial events"

subsection \<open>Example values\<close>

text \<open>The queue after \<open>report.pdf\<close> was submitted at time \<open>1000\<close> and the intake
  answered with job \<open>J1\<close> and document \<open>D1\<close>.\<close>

definition report_uploading :: "item list" where
  "report_uploading = handleUpload_add 1000 ''report.pdf'' []"

definition report_queued :: "item list" where
  "report_queued =
     handleUpload_ok 1000 \<lparr>job_id = Str ''J1'', document_id = Str ''D1''\<rparr> report_uploading"

definition answer :: "string \<Rightarrow> int \<Rightarrow> string option \<Rightarrow> nat \<Rightarrow> jobStatus option" where
  "answer st p m idx = Some \<lparr>js_status = st, js_progress = Some p, js_result_message = m\<rparr>"

definition report_processing :: "item list" where
  "report_processing =
     updatedQueue (answer ''processing'' 40 (Some ''Generating embeddings...'')) report_queued"

definition report_completed :: "item list" where
  "report_completed = updatedQueue (answer ''completed'' 100 None) report_processing"

text \<open>Two files chosen in one file dialog: \<open>handleChange\<close> of the upload area calls
  \<open>onUpload\<close> for each of them in one \<open>forEach\<close>, and both calls read the same
  \<open>Date.now()\<close>.\<close>

definition two_files_at_once :: "item list" where
  "two_files_at_once = handleUpload_add 1000 ''b.pdf'' (handleUpload_add 1000 ''a.pdf'' [])"

text \<open>The state in which \<open>report.pdf\<close> is queued and the interval runs.\<close>

definition polling :: app where
  "polling =
     run [Upload 1000 ''report.pdf'',
          UploadOk 1000 \<lparr>job_id = Str ''J1'', document_id = Str ''D1''\<rparr>]"

text \<open>The life of \<open>report.pdf\<close>: submitted, queued, polled as \<open>processing\<close>, polled as
  \<open>completed\<close>; the sweeps that the two passes scheduled run at the times \<open>12000\<close> and
  \<open>20000\<close>, when the completion is more than five seconds old.\<close>

definition report_life :: "event list" where
  "report_life =
     [Upload 1000 ''report.pdf'',
      UploadOk 1000 \<lparr>job_id = Str ''J1'', document_id = Str ''D1''\<rparr>,
      Tick,
      Settled 0 (answer ''processing'' 40 (Some ''Generating embeddings...'')),
      Tick,
      Settled 0 (answer ''completed'' 100 None),
      Timeout 12000,
      Timeout 20000]"

text \<open>Every request of a pass is rejected.\<close>

definition rejected :: "nat \<Rightarrow> jobStatus option" where
  "rejected idx = None"

text \<open>The upload of \<open>report.pdf\<close> is still running when a tick starts a pass; the
  intake answers while the pass waits for its request.\<close>

definition upload_answered_during_pass :: "event list" where
  "upload_answered_during_pass =
     [Upload 1000 ''report.pdf'',
      Tick,
      UploadOk 1000 \<lparr>job_id = Str ''J1'', document_id = Str ''D1''\<rparr>]"

text \<open>The same, with an upload that fails while the pass waits.\<close>

definition upload_failed_during_pass :: "event list" where
  "upload_failed_during_pass =
     [Upload 1000 ''report.pdf'',
      Tick,
      UploadFailed 1000 \<lparr>detail = None, error_message = ''Network Error''\<rparr>]"

text \<open>A second file is submitted while a pass waits.\<close>

definition upload_added_during_pass :: "event list" where
  "upload_added_during_pass =
     [Upload 1000 ''report.pdf'',
      Tick,
      Upload 2000 ''notes.txt'']"

text \<open>\<open>report.pdf\<close> is queued and polled once, with the answer \<open>processing\<close>.\<close>

definition processing_polled :: "event list" where
  "processing_polled =
     [Upload 1000 ''report.pdf'',
      UploadOk 1000 \<lparr>job_id = Str ''J1'', document_id = Str ''D1''\<rparr>,
      Tick,
      Settled 0 (answer ''processing'' 40 (Some ''Generating embeddings...''))]"

text \<open>Two ticks start two passes over the queued \<open>report.pdf\<close>; the first to settle was
  answered \<open>completed\<close>, the other one still waits.\<close>

definition completed_beside_waiting_pass :: "event list" where
  "completed_beside_waiting_pass =
     [Upload 1000 ''report.pdf'',
      UploadOk 1000 \<lparr>job_id = Str ''J1'', document_id = Str ''D1''\<rparr>,
      Tick,
      Tick,
      Settled 0 (answer ''completed'' 100 None)]"

text \<open>Two files submitted at the same \<open>Date.now()\<close>; the upload of the first fails.\<close>

definition both_marked_failed :: "event list" where
  "both_marked_failed =
     [Upload 1000 ''a.pdf'',
      Upload 1000 ''b.pdf'',
      UploadFailed 1000 \<lparr>detail = Some ''unsupported type'', error_message = ''Request failed''\<rparr>]"

text \<open>\<open>report.pdf\<close> is queued and \<open>notes.txt\<close> has just been submitted.\<close>

definition notes_submitted :: app where
  "notes_submitted = step polling (Upload 2000 ''notes.txt'')"

text \<open>\<open>report.pdf\<close> is completed, and a tick has started one more pass.\<close>

definition completed_and_ticked :: app where
  "completed_and_ticked = step (run report_life) Tick"

subsection \<open>Entries without a completion time\<close>

text \<open>No entry of the queue has the property \<open>completedAt\<close>.\<close>

definition unstamped :: "item list \<Rightarrow> bool" where
  "unstamped queue = (\<forall>item\<in>set queue. completedAt item = None)"

section \<open>Properties of a reconciliation pass\<close>

lemma length_updatedQueue: "length (updatedQueue fetches q) = length q"
  by (simp add: updatedQueue_def)

lemma nth_updatedQueue:
  "idx < length q \<Longrightarrow> updatedQueue fetches q ! idx = checkItem (fetches idx) (q ! idx)"
  by (simp add: updatedQueue_def nth_enumerate_eq)

lemma checkItem_frame:
  "id_item (checkItem outcome item) = id_item item"
  "filename (checkItem outcome item) = filename item"
  "jobId (checkItem outcome item) = jobId item"
  "documentId (checkItem outcome item) = documentId item"
  "completedAt (checkItem outcome item) = completedAt item"
  by (simp_all add: checkItem_def split: option.splits)

lemma checkItem_finished:
  "status item = ''completed'' \<or> status item = ''failed'' \<Longrightarrow> checkItem outcome item = item"
  by (simp add: checkItem_def)

lemma updatedQueue_frame:
  assumes "idx < length queue"
  shows "id_item (updatedQueue fetches queue ! idx) = id_item (queue ! idx)"
    and "filename (updatedQueue fetches queue ! idx) = filename (queue ! idx)"
    and "jobId (updatedQueue fetches queue ! idx) = jobId (queue ! idx)"
    and "documentId (updatedQueue fetches queue ! idx) = documentId (queue ! idx)"
  using assms by (simp_all add: nth_updatedQueue checkItem_frame)


lemma in_requests_iff:
  "(idx, url) \<in> set (requests queue) \<longleftrightarrow>
     idx < length queue \<and> \<not> (status (queue ! idx) = ''completed'' \<or> status (queue ! idx) = ''failed'')
       \<and> url = status_url (queue ! idx)"
  by (auto simp add: requests_def in_set_enumerate_eq image_iff)

lemma status_url_checkItem: "status_url (checkItem outcome item) = status_url item"
  by (simp add: status_url_def checkItem_frame)

subsection \<open>The example values, evaluated\<close>

lemma report_uploading_eval:
  "report_uploading =
     [\<lparr>id_item = uploadId 1000, filename = ''report.pdf'', status = ''uploading'',
       progress = 0, jobId = Null, documentId = Null, message = None, completedAt = None\<rparr>]"
  by (simp add: report_uploading_def handleUpload_add_def)

lemma report_queued_eval:
  "report_queued =
     [\<lparr>id_item = uploadId 1000, filename = ''report.pdf'', status = ''queued'',
       progress = 0, jobId = Str ''J1'', documentId = Str ''D1'', message = None,
       completedAt = None\<rparr>]"
  by (simp add: report_queued_def report_uploading_eval handleUpload_ok_def)

lemma report_processing_eval:
  "report_processing =
     [\<lparr>id_item = uploadId 1000, filename = ''report.pdf'', status = ''processing'',
       progress = 40, jobId = Str ''J1'', documentId = Str ''D1'',
       message = Some ''Generating embeddings...'', completedAt = None\<rparr>]"
  by (simp add: report_processing_def report_queued_eval updatedQueue_def checkItem_def
      answer_def or_zero_def or_string_def)

lemma report_completed_eval:
  "report_completed =
     [\<lparr>id_item = uploadId 1000, filename = ''report.pdf'', status = ''completed'',
       progress = 100, jobId = Str ''J1'', documentId = Str ''D1'', message = Some [],
       completedAt = None\<rparr>]"
  by (simp add: report_completed_def report_processing_eval updatedQueue_def checkItem_def
      answer_def or_zero_def or_string_def)

lemma uploadId_1000: "uploadId 1000 = ''1000''"
  by (simp add: uploadId_def toString.simps)

lemma uploadId_2000: "uploadId 2000 = ''2000''"
  by (simp add: uploadId_def toString.simps)

lemma polling_eval:
  "polling = \<lparr>uploadQueue = report_queued, documents_fetched = 0, passes = [], timeouts = 0\<rparr>"
  by (simp add: polling_def run_def initial_def report_queued_def report_uploading_def)

subsection \<open>Runs of the component\<close>

lemma run_snoc: "run (events @ [e]) = step (run events) e"
  by (simp add: run_def)

lemma fetchDocuments_calls_processing:
  "fetchDocuments_calls (answer ''processing'' 40 (Some ''Generating embeddings...'')) report_queued = 0"
  unfolding fetchDocuments_calls_def report_processing_def [symmetric]
  by (simp add: hasCompleted_def report_processing_eval report_queued_eval status_at_def)

lemma fetchDocuments_calls_completed:
  "fetchDocuments_calls (answer ''completed'' 100 None) report_processing = 1"
  unfolding fetchDocuments_calls_def report_completed_def [symmetric]
  by (simp add: hasCompleted_def report_completed_eval report_processing_eval status_at_def)

lemma sweep_report_completed: "sweep now report_completed = report_completed"
  by (simp add: sweep_def report_completed_eval elapsed_gt_def)

lemma run_report_life:
  "run report_life =
     \<lparr>uploadQueue = report_completed, documents_fetched = 1, passes = [], timeouts = 0\<rparr>"
proof -
  have tick1: "step polling Tick = polling\<lparr>passes := [report_queued]\<rparr>"
    by (simp add: polling_eval interval_tick_def report_queued_eval)
  have settled1: "step (polling\<lparr>passes := [report_queued]\<rparr>)
        (Settled 0 (answer ''processing'' 40 (Some ''Generating embeddings...'')))
      = \<lparr>uploadQueue = report_processing, documents_fetched = 0, passes = [], timeouts = 1\<rparr>"
    by (simp add: polling_eval pass_settles_def fetchDocuments_calls_processing
        report_processing_def)
  have tick2: "step \<lparr>uploadQueue = report_processing, documents_fetched = 0, passes = [], timeouts = 1\<rparr> Tick
      = \<lparr>uploadQueue = report_processing, documents_fetched = 0, passes = [report_processing], timeouts = 1\<rparr>"
    by (simp add: interval_tick_def report_processing_eval)
  have settled2: "step \<lparr>uploadQueue = report_processing, documents_fetched = 0, passes = [report_processing], timeouts = 1\<rparr>
        (Settled 0 (answer ''completed'' 100 None))
      = \<lparr>uploadQueue = report_completed, documents_fetched = 1, passes = [], timeouts = 2\<rparr>"
    by (simp add: pass_settles_def fetchDocuments_calls_completed report_completed_def)
  have sweep1: "step \<lparr>uploadQueue = report_completed, documents_fetched = 1, passes = [], timeouts = 2\<rparr> (Timeout 12000)
      = \<lparr>uploadQueue = report_completed, documents_fetched = 1, passes = [], timeouts = 1\<rparr>"
    by (simp add: timeout_fires_def sweep_report_completed)
  have sweep2: "step \<lparr>uploadQueue = report_completed, documents_fetched = 1, passes = [], timeouts = 1\<rparr> (Timeout 20000)
      = \<lparr>uploadQueue = report_completed, documents_fetched = 1, passes = [], timeouts = 0\<rparr>"
    by (simp add: timeout_fires_def sweep_report_completed)
  have "run report_life
      = step (step (step (step (step (step polling Tick)
          (Settled 0 (answer ''processing'' 40 (Some ''Generating embeddings...'')))) Tick)
          (Settled 0 (answer ''completed'' 100 None))) (Timeout 12000)) (Timeout 20000)"
    by (simp add: report_life_def polling_def run_def)
  then show ?thesis
    by (simp only: tick1 settled1 tick2 settled2 sweep1 sweep2)
qed

subsection \<open>No event writes \<open>completedAt\<close>\<close>

lemma unstamped_updatedQueue: "unstamped queue \<Longrightarrow> unstamped (updatedQueue fetches queue)"
  by (auto simp add: unstamped_def updatedQueue_def in_set_enumerate_eq checkItem_frame)

lemma unstamped_sweep: "unstamped queue \<Longrightarrow> sweep now queue = queue"
  by (simp add: unstamped_def sweep_def elapsed_gt_def)

lemma unstamped_handleUpload:
  "unstamped queue \<Longrightarrow> unstamped (handleUpload_add now file_name queue)"
  "unstamped queue \<Longrightarrow> unstamped (handleUpload_ok now response queue)"
  "unstamped queue \<Longrightarrow> unstamped (handleUpload_failed now error queue)"
  by (auto simp add: unstamped_def handleUpload_add_def handleUpload_ok_def handleUpload_failed_def)

lemma unstamped_step:
  assumes "unstamped (uploadQueue s)" and "\<forall>q\<in>set (passes s). unstamped q"
  shows "unstamped (uploadQueue (step s e)) \<and> (\<forall>q\<in>set (passes (step s e)). unstamped q)"
proof (cases e)
  case (Settled k fetches)
  show ?thesis
  proof (cases "k < length (passes s)")
    case True
    then have "unstamped (passes s ! k)"
      using assms(2) by simp
    moreover have "set (take k (passes s) @ drop (Suc k) (passes s)) \<subseteq> set (passes s)"
      using set_take_subset set_drop_subset by fastforce
    ultimately show ?thesis
      using assms(2) True Settled by (auto simp add: pass_settles_def unstamped_updatedQueue)
  next
    case False
    then show ?thesis
      using assms Settled by (simp add: pass_settles_def)
  qed
qed (use assms in \<open>auto simp add: unstamped_handleUpload interval_tick_def timeout_fires_def unstamped_sweep\<close>)

lemma unstamped_run:
  "unstamped (uploadQueue (run events)) \<and> (\<forall>q\<in>set (passes (run events)). unstamped q)"
proof (induction events rule: rev_induct)
  case Nil
  show ?case by (simp add: run_def initial_def unstamped_def)
next
  case (snoc e events)
  then show ?case
    using unstamped_step [of "run events" e] by (simp add: run_snoc)
qed

lemma sweeper_removes_nothing:
  "uploadQueue (timeout_fires now (run events)) = uploadQueue (run events)"
  using unstamped_run [of events] by (simp add: timeout_fires_def unstamped_sweep)

lemma ticks_queue: "uploadQueue ((interval_tick ^^ n) s) = uploadQueue s"
  by (induction n) (simp_all add: interval_tick_def)

subsection \<open>Events on the registry\<close>

lemma settled_registry:
  "k < length (passes s) \<Longrightarrow>
     uploadQueue (step s (Settled k fetches)) = updatedQueue fetches (passes s ! k)"
  by (simp add: pass_settles_def)

lemma upload_keeps_entries:
  "idx < length (uploadQueue s) \<Longrightarrow>
     uploadQueue (step s (Upload now file_name)) ! idx = uploadQueue s ! idx"
  by (simp add: handleUpload_add_def nth_append)

lemma answer_other_id:
  assumes "idx < length (uploadQueue s)" and "id_item (uploadQueue s ! idx) \<noteq> uploadId now"
  shows "uploadQueue (step s (UploadOk now response)) ! idx = uploadQueue s ! idx"
    and "uploadQueue (step s (UploadFailed now error)) ! idx = uploadQueue s ! idx"
  using assms by (simp_all add: handleUpload_ok_def handleUpload_failed_def)

lemma tick_registry: "uploadQueue (step s Tick) = uploadQueue s"
  by (simp add: interval_tick_def)

lemma timeout_registry: "set (uploadQueue (step s (Timeout now))) \<subseteq> set (uploadQueue s)"
  by (auto simp add: timeout_fires_def sweep_def)

lemma settled_fresh_entry:
  assumes "k < length (passes s)" and "uploadQueue s = passes s ! k"
    and "idx < length (uploadQueue s)"
  shows "uploadQueue (step s (Settled k fetches)) ! idx
           = checkItem (fetches idx) (uploadQueue s ! idx)"
  using assms by (simp add: pass_settles_def nth_updatedQueue)

subsection \<open>Runs with a pass in flight, evaluated\<close>

lemma run_upload_answered_during_pass:
  "run upload_answered_during_pass =
     \<lparr>uploadQueue = report_queued, documents_fetched = 0, passes = [report_uploading],
      timeouts = 0\<rparr>"
  by (simp add: upload_answered_during_pass_def run_def initial_def interval_tick_def
      report_queued_def report_uploading_def handleUpload_add_def)

lemma updatedQueue_rejected: "updatedQueue rejected queue = queue"
  by (simp add: list_eq_iff_nth_eq length_updatedQueue nth_updatedQueue checkItem_def rejected_def)

lemma run_upload_failed_during_pass:
  "run upload_failed_during_pass =
     \<lparr>uploadQueue = handleUpload_failed 1000 \<lparr>detail = None, error_message = ''Network Error''\<rparr> report_uploading,
      documents_fetched = 0, passes = [report_uploading], timeouts = 0\<rparr>"
  by (simp add: upload_failed_during_pass_def run_def initial_def interval_tick_def
      report_uploading_def handleUpload_add_def)

lemma run_upload_added_during_pass:
  "run upload_added_during_pass =
     \<lparr>uploadQueue = handleUpload_add 2000 ''notes.txt'' report_uploading,
      documents_fetched = 0, passes = [report_uploading], timeouts = 0\<rparr>"
  by (simp add: upload_added_during_pass_def run_def initial_def interval_tick_def
      report_uploading_def handleUpload_add_def)

lemma run_processing_polled:
  "run processing_polled =
     \<lparr>uploadQueue = report_processing, documents_fetched = 0, passes = [], timeouts = 1\<rparr>"
proof -
  have "run processing_polled
      = step (step polling Tick)
          (Settled 0 (answer ''processing'' 40 (Some ''Generating embeddings...'')))"
    by (simp add: processing_polled_def polling_def run_def)
  also have "step polling Tick = polling\<lparr>passes := [report_queued]\<rparr>"
    by (simp add: polling_eval interval_tick_def report_queued_eval)
  finally show ?thesis
    by (simp add: polling_eval pass_settles_def fetchDocuments_calls_processing
        report_processing_def)
qed

lemma run_completed_beside_waiting_pass:
  "run completed_beside_waiting_pass =
     \<lparr>uploadQueue = updatedQueue (answer ''completed'' 100 None) report_queued,
      documents_fetched = fetchDocuments_calls (answer ''completed'' 100 None) report_queued,
      passes = [report_queued], timeouts = 1\<rparr>"
proof -
  have "run completed_beside_waiting_pass
      = step (step (step polling Tick) Tick) (Settled 0 (answer ''completed'' 100 None))"
    by (simp add: completed_beside_waiting_pass_def polling_def run_def)
  also have "step (step polling Tick) Tick = polling\<lparr>passes := [report_queued, report_queued]\<rparr>"
    by (simp add: polling_eval interval_tick_def report_queued_eval)
  finally show ?thesis
    by (simp add: polling_eval pass_settles_def)
qed

lemma run_both_marked_failed:
  "map status (uploadQueue (run both_marked_failed)) = [''failed'', ''failed'']"
  "map status (uploadQueue (step (run both_marked_failed)
       (UploadOk 1000 \<lparr>job_id = Str ''J2'', document_id = Str ''D2''\<rparr>))) = [''queued'', ''queued'']"
  by (simp_all add: both_marked_failed_def run_def initial_def handleUpload_add_def
      handleUpload_failed_def handleUpload_ok_def)

lemma polling_ticked:
  "step polling Tick
     = \<lparr>uploadQueue = report_queued, documents_fetched = 0, passes = [report_queued], timeouts = 0\<rparr>"
  by (simp add: polling_eval interval_tick_def report_queued_eval)

lemma completed_and_ticked_eval:
  "completed_and_ticked
     = \<lparr>uploadQueue = report_completed, documents_fetched = 1, passes = [report_completed],
        timeouts = 0\<rparr>"
  by (simp add: completed_and_ticked_def run_report_life interval_tick_def report_completed_eval)

lemma notes_submitted_eval:
  "notes_submitted
     = \<lparr>uploadQueue = handleUpload_add 2000 ''notes.txt'' report_queued, documents_fetched = 0,
        passes = [], timeouts = 0\<rparr>"
  by (simp add: notes_submitted_def polling_eval)

text \<open>What holds of a rejected poll whatever happened while the pass waited: the entry
  is in the queue as the pass read it, and the next tick polls it at the same address.\<close>

lemma rejected_poll_refetched_on_next_tick:
  assumes "k < length (passes s)" and "(idx, url) \<in> set (requests (passes s ! k))"
    and "fetches idx = None"
  shows "uploadQueue (step (step s (Settled k fetches)) Tick) ! idx = passes s ! k ! idx"
    and "(idx, url) \<in> set (requests (last (passes (step (step s (Settled k fetches)) Tick))))"
proof -
  let ?q = "passes s ! k"
  let ?s' = "step s (Settled k fetches)"
  from assms(2) have idx: "idx < length ?q"
    and open_entry: "\<not> (status (?q ! idx) = ''completed'' \<or> status (?q ! idx) = ''failed'')"
    and url: "url = status_url (?q ! idx)"
    by (simp_all add: in_requests_iff)
  have reg: "uploadQueue ?s' = updatedQueue fetches ?q"
    using assms(1) by (rule settled_registry)
  have kept: "uploadQueue ?s' ! idx = ?q ! idx"
    unfolding reg using idx assms(3) by (simp add: nth_updatedQueue checkItem_def)
  have nonempty: "uploadQueue ?s' \<noteq> []"
    unfolding reg using idx length_updatedQueue [of fetches "passes s ! k"] by auto
  then have last: "last (passes (step ?s' Tick)) = uploadQueue ?s'"
    by (simp add: interval_tick_def)
  show "uploadQueue (step ?s' Tick) ! idx = ?q ! idx"
    unfolding tick_registry by (rule kept)
  have "(idx, url) \<in> set (requests (uploadQueue ?s'))"
    unfolding in_requests_iff kept using idx open_entry url
    by (simp add: reg length_updatedQueue del: step.simps)
  then show "(idx, url) \<in> set (requests (last (passes (step ?s' Tick))))"
    by (simp only: last)
qed

section \<open>The claims\<close>

text \<open>Claim C1, the retention sweeper.  The claim: the sweeper removes an entry exactly when
  its status is \<open>completed\<close> and the grace period has passed since \<open>completedAt\<close>.
  The code at the life of \<open>report.pdf\<close>: the entry is completed by a poll, both sweeps run
  more than five seconds later, and the entry is still in the queue, because no event
  gave it a \<open>completedAt\<close> (see \<open>sweeper_removes_nothing\<close> for every run).\<close>

theorem completed_report_survives_sweeps:
  "map status (uploadQueue (run report_life)) = [''completed'']
   \<and> map completedAt (uploadQueue (run report_life)) = [None]"
  by (simp add: run_report_life report_completed_eval)

text \<open>Claim C2, \<open>completedAt\<close>.  The claim: the pass that first fetches the status
  \<open>completed\<close> for an entry records \<open>completedAt\<close>.  The code at \<open>report.pdf\<close>: the pass
  turns the entry from \<open>processing\<close> to \<open>completed\<close> and the entry has no \<open>completedAt\<close>
  afterwards.\<close>

theorem completion_pass_leaves_completedAt_unset:
  "status (report_processing ! 0) = ''processing''
   \<and> status (updatedQueue (answer ''completed'' 100 None) report_processing ! 0) = ''completed''
   \<and> completedAt (updatedQueue (answer ''completed'' 100 None) report_processing ! 0) = None"
  using report_completed_eval by (simp add: report_completed_def report_processing_eval)

text \<open>Claim C3 as stated fails: with \<open>report.pdf\<close> queued and no pass waiting, a tick
  starts a pass, and the next tick, fired before the requests of that pass have settled,
  starts a second pass beside it.\<close>

theorem second_tick_starts_overlapping_pass:
  "passes polling = []
   \<and> passes (step polling Tick) = [report_queued]
   \<and> passes (step (step polling Tick) Tick) = [report_queued, report_queued]"
  by (simp add: polling_eval interval_tick_def report_queued_eval)

text \<open>Claim C3, amended.  While the queue is not empty every tick of the interval starts
  exactly one pass over the current queue, whether or not earlier passes still wait for
  their requests: \<open>n\<close> ticks with no pass settling in between leave \<open>n\<close> more passes
  waiting, and the queue as it was.\<close>

theorem ticks_start_one_pass_each:
  assumes "uploadQueue s \<noteq> []"
  shows "passes ((interval_tick ^^ n) s) = passes s @ replicate n (uploadQueue s)"
proof (induction n)
  case 0
  show ?case by simp
next
  case (Suc n)
  have "uploadQueue ((interval_tick ^^ n) s) \<noteq> []"
    using assms by (simp add: ticks_queue)
  then have "passes ((interval_tick ^^ Suc n) s)
      = passes ((interval_tick ^^ n) s) @ [uploadQueue ((interval_tick ^^ n) s)]"
    by (simp add: interval_tick_def)
  also have "\<dots> = (passes s @ replicate n (uploadQueue s)) @ [uploadQueue s]"
    by (simp add: Suc.IH ticks_queue)
  also have "\<dots> = passes s @ replicate (Suc n) (uploadQueue s)"
    by (simp add: replicate_append_same)
  finally show ?case .
qed

text \<open>Three ticks in the state where \<open>report.pdf\<close> is queued.\<close>

theorem ticks_start_one_pass_each_witness:
  "uploadQueue polling \<noteq> []
   \<and> passes ((interval_tick ^^ 3) polling) = [report_queued, report_queued, report_queued]"
  using ticks_start_one_pass_each [of polling 3]
  by (simp add: polling_eval report_queued_eval numeral_3_eq_3)

text \<open>Claim C4, tracking ids.  The claim: every submitted file gets an entry whose id
  differs from the id of every other entry.  The code at two files chosen in one file
  dialog, both submitted at \<open>Date.now() = 1000\<close>: the two entries have the same id, and
  the failure of one upload, applied by id, marks both entries as failed.\<close>

theorem two_files_at_once_share_id:
  "map id_item two_files_at_once = [''1000'', ''1000'']
   \<and> map status
        (handleUpload_failed 1000
           \<lparr>detail = Some ''unsupported type'', error_message = ''Request failed''\<rparr>
           two_files_at_once)
       = [''failed'', ''failed'']"
  by (simp add: two_files_at_once_def handleUpload_add_def handleUpload_failed_def uploadId_1000)

text \<open>Claim C5 as stated fails, in three ways.  By a poll: \<open>report.pdf\<close> is in
  \<open>processing\<close>, the next poll answers \<open>queued\<close>, and the entry goes back to \<open>queued\<close>.
  By a pass that settles late: the entry is \<open>completed\<close> while a second pass, started
  when it was \<open>queued\<close>, still waits; that pass is answered \<open>processing\<close> and sets the
  queue it computed from its own copy, so the entry leaves \<open>completed\<close>.  By an answer
  to an upload: two entries share an id and are both \<open>failed\<close>; the answer to the second
  upload sets both to \<open>queued\<close>.\<close>

theorem status_goes_backwards:
  "map status (uploadQueue (run processing_polled)) = [''processing'']
   \<and> map status (uploadQueue (step (step (run processing_polled) Tick)
         (Settled 0 (answer ''queued'' 0 None)))) = [''queued'']
   \<and> map status (uploadQueue (run completed_beside_waiting_pass)) = [''completed'']
   \<and> map status (uploadQueue (step (run completed_beside_waiting_pass)
         (Settled 0 (answer ''processing'' 40 None)))) = [''processing'']
   \<and> map status (uploadQueue (run both_marked_failed)) = [''failed'', ''failed'']
   \<and> map status (uploadQueue (step (run both_marked_failed)
         (UploadOk 1000 \<lparr>job_id = Str ''J2'', document_id = Str ''D2''\<rparr>)))
       = [''queued'', ''queued'']"
proof -
  have a: "map status (uploadQueue (run processing_polled)) = [''processing'']"
    by (simp add: run_processing_polled report_processing_eval)
  have b: "map status (uploadQueue (step (step (run processing_polled) Tick)
         (Settled 0 (answer ''queued'' 0 None)))) = [''queued'']"
    by (simp add: run_processing_polled interval_tick_def pass_settles_def report_processing_eval
        updatedQueue_def checkItem_def answer_def)
  have c: "map status (uploadQueue (run completed_beside_waiting_pass)) = [''completed'']"
    by (simp add: run_completed_beside_waiting_pass report_queued_eval
        updatedQueue_def checkItem_def answer_def)
  have d: "map status (uploadQueue (step (run completed_beside_waiting_pass)
         (Settled 0 (answer ''processing'' 40 None)))) = [''processing'']"
    by (simp add: run_completed_beside_waiting_pass pass_settles_def report_queued_eval
        updatedQueue_def checkItem_def answer_def)
  from a b c d run_both_marked_failed show ?thesis by simp
qed

text \<open>Claim C5, amended.  When a pass settles and the queue is still the one the pass read,
  every entry whose status is \<open>completed\<close> or \<open>failed\<close> is left as it is, and every
  other entry takes the status that its poll fetched, whatever that status is, or keeps
  its status when the poll was rejected.  Submitting a file changes no entry that is
  in the queue; the answer to an upload, good or bad, changes no entry whose id differs
  from the id of that upload; a tick changes no entry; the queue after a sweep holds
  only entries that were in it before, unchanged.\<close>

theorem registry_status_transitions:
  "(k < length (passes s) \<and> uploadQueue s = passes s ! k \<and> idx < length (uploadQueue s)
      \<longrightarrow> (status (uploadQueue s ! idx) = ''completed'' \<or> status (uploadQueue s ! idx) = ''failed''
             \<longrightarrow> uploadQueue (step s (Settled k fetches)) ! idx = uploadQueue s ! idx)
        \<and> (\<not> (status (uploadQueue s ! idx) = ''completed'' \<or> status (uploadQueue s ! idx) = ''failed'')
             \<longrightarrow> status (uploadQueue (step s (Settled k fetches)) ! idx)
                   = (case fetches idx of None \<Rightarrow> status (uploadQueue s ! idx)
                                       | Some jobStatus \<Rightarrow> js_status jobStatus)))
   \<and> (idx < length (uploadQueue s)
      \<longrightarrow> uploadQueue (step s (Upload now file_name)) ! idx = uploadQueue s ! idx)
   \<and> (idx < length (uploadQueue s) \<and> id_item (uploadQueue s ! idx) \<noteq> uploadId now
      \<longrightarrow> uploadQueue (step s (UploadOk now response)) ! idx = uploadQueue s ! idx
        \<and> uploadQueue (step s (UploadFailed now error)) ! idx = uploadQueue s ! idx)
   \<and> uploadQueue (step s Tick) = uploadQueue s
   \<and> set (uploadQueue (step s (Timeout t))) \<subseteq> set (uploadQueue s)"
proof -
  have pass: "k < length (passes s) \<and> uploadQueue s = passes s ! k \<and> idx < length (uploadQueue s)
      \<longrightarrow> (status (uploadQueue s ! idx) = ''completed'' \<or> status (uploadQueue s ! idx) = ''failed''
             \<longrightarrow> uploadQueue (step s (Settled k fetches)) ! idx = uploadQueue s ! idx)
        \<and> (\<not> (status (uploadQueue s ! idx) = ''completed'' \<or> status (uploadQueue s ! idx) = ''failed'')
             \<longrightarrow> status (uploadQueue (step s (Settled k fetches)) ! idx)
                   = (case fetches idx of None \<Rightarrow> status (uploadQueue s ! idx)
                                       | Some jobStatus \<Rightarrow> js_status jobStatus))"
  proof (intro impI, elim conjE)
    assume "k < length (passes s)" and "uploadQueue s = passes s ! k"
      and "idx < length (uploadQueue s)"
    then have "uploadQueue (step s (Settled k fetches)) ! idx
        = checkItem (fetches idx) (uploadQueue s ! idx)"
      by (rule settled_fresh_entry)
    then show "(status (uploadQueue s ! idx) = ''completed'' \<or> status (uploadQueue s ! idx) = ''failed''
             \<longrightarrow> uploadQueue (step s (Settled k fetches)) ! idx = uploadQueue s ! idx)
        \<and> (\<not> (status (uploadQueue s ! idx) = ''completed'' \<or> status (uploadQueue s ! idx) = ''failed'')
             \<longrightarrow> status (uploadQueue (step s (Settled k fetches)) ! idx)
                   = (case fetches idx of None \<Rightarrow> status (uploadQueue s ! idx)
                                       | Some jobStatus \<Rightarrow> js_status jobStatus))"
      by (simp add: checkItem_def split: option.splits del: step.simps)
  qed
  have others: "idx < length (uploadQueue s) \<and> id_item (uploadQueue s ! idx) \<noteq> uploadId now
      \<longrightarrow> uploadQueue (step s (UploadOk now response)) ! idx = uploadQueue s ! idx
        \<and> uploadQueue (step s (UploadFailed now error)) ! idx = uploadQueue s ! idx"
    using answer_other_id [of idx s now] by blast
  from pass others upload_keeps_entries [of idx s now file_name] tick_registry [of s]
    timeout_registry [of s t]
  show ?thesis by blast
qed

text \<open>A pass over the queued \<open>report.pdf\<close> is answered \<open>processing\<close>; a pass over the
  completed \<open>report.pdf\<close> is answered \<open>processing\<close> and changes nothing; the answer to the
  upload of \<open>notes.txt\<close> leaves the entry of \<open>report.pdf\<close> alone.\<close>

theorem registry_status_transitions_witness:
  "0 < length (passes (step polling Tick))
   \<and> uploadQueue (step polling Tick) = passes (step polling Tick) ! 0
   \<and> 0 < length (uploadQueue (step polling Tick))
   \<and> status (uploadQueue (step polling Tick) ! 0) = ''queued''
   \<and> status (uploadQueue (step (step polling Tick) (Settled 0 (answer ''processing'' 40 None))) ! 0)
       = ''processing''
   \<and> 0 < length (passes completed_and_ticked)
   \<and> uploadQueue completed_and_ticked = passes completed_and_ticked ! 0
   \<and> 0 < length (uploadQueue completed_and_ticked)
   \<and> status (uploadQueue completed_and_ticked ! 0) = ''completed''
   \<and> uploadQueue (step completed_and_ticked (Settled 0 (answer ''processing'' 40 None))) ! 0
       = uploadQueue completed_and_ticked ! 0
   \<and> 0 < length (uploadQueue notes_submitted)
   \<and> id_item (uploadQueue notes_submitted ! 0) \<noteq> uploadId 2000
   \<and> uploadQueue (step notes_submitted
         (UploadOk 2000 \<lparr>job_id = Str ''J2'', document_id = Str ''D2''\<rparr>)) ! 0
       = uploadQueue notes_submitted ! 0"
proof -
  let ?ticked = "step polling Tick"
  have a1: "0 < length (passes ?ticked)"
    and a2: "uploadQueue ?ticked = passes ?ticked ! 0"
    and a3: "0 < length (uploadQueue ?ticked)"
    and a4: "status (uploadQueue ?ticked ! 0) = ''queued''"
    and a5: "\<not> (status (uploadQueue ?ticked ! 0) = ''completed''
               \<or> status (uploadQueue ?ticked ! 0) = ''failed'')"
    by (simp_all add: polling_ticked report_queued_eval del: step.simps)
  from registry_status_transitions [of 0 ?ticked 0 "answer ''processing'' 40 None"] a1 a2 a3 a5
  have "status (uploadQueue (step ?ticked (Settled 0 (answer ''processing'' 40 None))) ! 0)
      = (case answer ''processing'' 40 None 0 of
           None \<Rightarrow> status (uploadQueue ?ticked ! 0)
         | Some jobStatus \<Rightarrow> js_status jobStatus)"
    by blast
  then have a': "status (uploadQueue (step ?ticked (Settled 0 (answer ''processing'' 40 None))) ! 0)
      = ''processing''"
    by (simp add: answer_def del: step.simps)
  have b1: "0 < length (passes completed_and_ticked)"
    and b2: "uploadQueue completed_and_ticked = passes completed_and_ticked ! 0"
    and b3: "0 < length (uploadQueue completed_and_ticked)"
    and b4: "status (uploadQueue completed_and_ticked ! 0) = ''completed''"
    by (simp_all add: completed_and_ticked_eval report_completed_eval)
  from registry_status_transitions [of 0 completed_and_ticked 0 "answer ''processing'' 40 None"]
    b1 b2 b3 b4
  have b': "uploadQueue (step completed_and_ticked (Settled 0 (answer ''processing'' 40 None))) ! 0
      = uploadQueue completed_and_ticked ! 0"
    by blast
  have c1: "0 < length (uploadQueue notes_submitted)"
    and c2: "id_item (uploadQueue notes_submitted ! 0) \<noteq> uploadId 2000"
    by (simp_all add: notes_submitted_eval handleUpload_add_def report_queued_eval
        uploadId_1000 uploadId_2000)
  from registry_status_transitions [where idx = 0 and s = notes_submitted and now = 2000
      and response = "\<lparr>job_id = Str ''J2'', document_id = Str ''D2''\<rparr>"] c1 c2
  have c': "uploadQueue (step notes_submitted
         (UploadOk 2000 \<lparr>job_id = Str ''J2'', document_id = Str ''D2''\<rparr>)) ! 0
       = uploadQueue notes_submitted ! 0"
    by blast
  from a1 a2 a3 a4 a' b1 b2 b3 b4 b' c1 c2 c' show ?thesis
    by blast
qed



text \<open>Claim C7, a rejected poll.  The claim: an entry whose poll fails keeps its status,
  progress and message, and is polled again on the next tick.  The code at an upload
  that is answered while a pass waits: the pass polled the entry at the address of the
  job \<open>null\<close>, the intake then set the entry to \<open>queued\<close> with job \<open>J1\<close>, and the poll is
  rejected.  The pass sets the queue it computed from its own copy: the entry is
  \<open>uploading\<close> again, and the next tick polls the job \<open>null\<close>, not \<open>J1\<close>.\<close>

theorem rejected_poll_reverts_answered_upload:
  "requests (passes (run upload_answered_during_pass) ! 0) = [(0, ''/api/ingest/job/null/status'')]
   \<and> rejected 0 = None
   \<and> map status (uploadQueue (run upload_answered_during_pass)) = [''queued'']
   \<and> map jobId (uploadQueue (run upload_answered_during_pass)) = [Str ''J1'']
   \<and> map status (uploadQueue (step (run upload_answered_during_pass) (Settled 0 rejected)))
       = [''uploading'']
   \<and> requests (last (passes (step (step (run upload_answered_during_pass) (Settled 0 rejected)) Tick)))
       = [(0, ''/api/ingest/job/null/status'')]"
proof -
  have settled: "step (run upload_answered_during_pass) (Settled 0 rejected)
      = \<lparr>uploadQueue = report_uploading, documents_fetched = 0, passes = [], timeouts = 1\<rparr>"
    by (simp add: run_upload_answered_during_pass pass_settles_def updatedQueue_rejected
        fetchDocuments_calls_def hasCompleted_def report_uploading_eval)
  have req: "requests report_uploading = [(0, ''/api/ingest/job/null/status'')]"
    by (simp add: requests_def report_uploading_eval status_url_def template_def)
  have "step (step (run upload_answered_during_pass) (Settled 0 rejected)) Tick
      = \<lparr>uploadQueue = report_uploading, documents_fetched = 0, passes = [report_uploading],
         timeouts = 1\<rparr>"
    by (simp only: settled) (simp add: interval_tick_def report_uploading_eval)
  then have again: "requests (last (passes (step (step (run upload_answered_during_pass)
      (Settled 0 rejected)) Tick))) = [(0, ''/api/ingest/job/null/status'')]"
    by (simp add: req del: step.simps)
  have before: "map status (uploadQueue (run upload_answered_during_pass)) = [''queued'']"
    "map jobId (uploadQueue (run upload_answered_during_pass)) = [Str ''J1'']"
    "requests (passes (run upload_answered_during_pass) ! 0) = [(0, ''/api/ingest/job/null/status'')]"
    by (simp_all add: run_upload_answered_during_pass report_queued_eval req)
  have after: "map status (uploadQueue (step (run upload_answered_during_pass) (Settled 0 rejected)))
       = [''uploading'']"
    by (simp only: settled) (simp add: report_uploading_eval)
  from before after again show ?thesis
    by (simp add: rejected_def del: step.simps)
qed

text \<open>Claim C8 as stated fails: the entry of \<open>report.pdf\<close> carries the message of an
  earlier poll; a poll whose answer has no message replaces it by the empty string.\<close>

theorem absent_message_clears_prior_message:
  "answer ''processing'' 80 None 0
     = Some \<lparr>js_status = ''processing'', js_progress = Some 80, js_result_message = None\<rparr>
   \<and> status (report_processing ! 0) = ''processing''
   \<and> message (report_processing ! 0) = Some ''Generating embeddings...''
   \<and> message (updatedQueue (answer ''processing'' 80 None) report_processing ! 0) = Some ''''"
  by (simp add: report_processing_eval updatedQueue_def checkItem_def answer_def or_string_def)

text \<open>Claim C8, amended.  For an entry that is neither \<open>completed\<close> nor \<open>failed\<close> and whose
  poll is answered, the pass overwrites the status with the fetched status, the progress
  with the fetched progress, or with \<open>0\<close> when the answer has none, and the message with
  the message of the answer, or with the empty string when the answer has none.\<close>

theorem pass_merge_overwrites:
  assumes "idx < length queue"
    and "\<not> (status (queue ! idx) = ''completed'' \<or> status (queue ! idx) = ''failed'')"
    and "fetches idx = Some jobStatus"
  shows "updatedQueue fetches queue ! idx =
           (queue ! idx)\<lparr>status := js_status jobStatus,
                         progress := (case js_progress jobStatus of None \<Rightarrow> 0 | Some p \<Rightarrow> p),
                         message := Some (case js_result_message jobStatus of
                                            None \<Rightarrow> '''' | Some m \<Rightarrow> m)\<rparr>"
  using assms
  by (simp add: nth_updatedQueue checkItem_def or_zero_def or_string_def split: option.splits)

text \<open>The entry of \<open>report.pdf\<close> in \<open>processing\<close>, polled with an answer without a
  message.\<close>

theorem pass_merge_overwrites_witness:
  "0 < length report_processing
   \<and> \<not> (status (report_processing ! 0) = ''completed'' \<or> status (report_processing ! 0) = ''failed'')
   \<and> answer ''processing'' 80 None 0
        = Some \<lparr>js_status = ''processing'', js_progress = Some 80, js_result_message = None\<rparr>
   \<and> updatedQueue (answer ''processing'' 80 None) report_processing ! 0
        = (report_processing ! 0)\<lparr>status := ''processing'', progress := 80, message := Some ''''\<rparr>"
proof -
  have a: "0 < length report_processing"
    by (simp add: report_processing_eval)
  have b: "\<not> (status (report_processing ! 0) = ''completed'' \<or> status (report_processing ! 0) = ''failed'')"
    by (simp add: report_processing_eval)
  have c: "answer ''processing'' 80 None 0
        = Some \<lparr>js_status = ''processing'', js_progress = Some 80, js_result_message = None\<rparr>"
    by (simp add: answer_def)
  from pass_merge_overwrites [where idx = 0 and queue = report_processing
      and fetches = "answer ''processing'' 80 None", OF a b c] a b c
  show ?thesis by simp
qed

text \<open>Claim C9 as stated fails: once the intake has answered, the entry of \<open>report.pdf\<close>
  is \<open>queued\<close> and already carries the document id.\<close>

theorem documentId_set_when_queued:
  "map status (uploadQueue polling) = [''queued'']
   \<and> map documentId (uploadQueue polling) = [Str ''D1'']"
  by (simp add: polling_eval report_queued_eval)

text \<open>Claim C9, amended.  The entry that a submission adds has the document id \<open>null\<close>.
  The answer to a successful upload sets, in every entry with the upload's id, the
  status to \<open>queued\<close> and the document id to the one of the answer, and leaves the
  entries with another id as they are.  The answer to a failed upload changes no
  document id.  A pass that settles while the queue is still the one it read changes
  no document id.\<close>

theorem documentId_lifecycle:
  "documentId (last (uploadQueue (step s (Upload now file_name)))) = Null
   \<and> (idx < length (uploadQueue s) \<and> id_item (uploadQueue s ! idx) = uploadId now
      \<longrightarrow> status (uploadQueue (step s (UploadOk now response)) ! idx) = ''queued''
        \<and> documentId (uploadQueue (step s (UploadOk now response)) ! idx) = document_id response)
   \<and> (idx < length (uploadQueue s) \<and> id_item (uploadQueue s ! idx) \<noteq> uploadId now
      \<longrightarrow> uploadQueue (step s (UploadOk now response)) ! idx = uploadQueue s ! idx)
   \<and> (idx < length (uploadQueue s)
      \<longrightarrow> documentId (uploadQueue (step s (UploadFailed now error)) ! idx)
           = documentId (uploadQueue s ! idx))
   \<and> (k < length (passes s) \<and> uploadQueue s = passes s ! k \<and> idx < length (uploadQueue s)
      \<longrightarrow> documentId (uploadQueue (step s (Settled k fetches)) ! idx)
           = documentId (uploadQueue s ! idx))"
proof -
  have added: "documentId (last (uploadQueue (step s (Upload now file_name)))) = Null"
    by (simp add: handleUpload_add_def)
  have answered: "idx < length (uploadQueue s) \<and> id_item (uploadQueue s ! idx) = uploadId now
      \<longrightarrow> status (uploadQueue (step s (UploadOk now response)) ! idx) = ''queued''
        \<and> documentId (uploadQueue (step s (UploadOk now response)) ! idx) = document_id response"
    by (simp add: handleUpload_ok_def)
  have other: "idx < length (uploadQueue s) \<and> id_item (uploadQueue s ! idx) \<noteq> uploadId now
      \<longrightarrow> uploadQueue (step s (UploadOk now response)) ! idx = uploadQueue s ! idx"
    using answer_other_id(1) [of idx s now response] by blast
  have failed: "idx < length (uploadQueue s)
      \<longrightarrow> documentId (uploadQueue (step s (UploadFailed now error)) ! idx)
           = documentId (uploadQueue s ! idx)"
    by (simp add: handleUpload_failed_def)
  have pass: "k < length (passes s) \<and> uploadQueue s = passes s ! k \<and> idx < length (uploadQueue s)
      \<longrightarrow> documentId (uploadQueue (step s (Settled k fetches)) ! idx)
           = documentId (uploadQueue s ! idx)"
    using settled_fresh_entry [of k s idx fetches]
    by (auto simp add: checkItem_frame simp del: step.simps)
  from added answered other failed pass show ?thesis by blast
qed

text \<open>The entry of \<open>report.pdf\<close>: document id \<open>null\<close> when added, \<open>D1\<close> when queued, and
  still \<open>D1\<close> after the pass that completes it.\<close>

theorem documentId_lifecycle_witness:
  "documentId (last (uploadQueue (step initial (Upload 1000 ''report.pdf'')))) = Null
   \<and> 0 < length (uploadQueue (step initial (Upload 1000 ''report.pdf'')))
   \<and> id_item (uploadQueue (step initial (Upload 1000 ''report.pdf'')) ! 0) = uploadId 1000
   \<and> status (uploadQueue polling ! 0) = ''queued''
   \<and> documentId (uploadQueue polling ! 0) = Str ''D1''
   \<and> 0 < length (passes (step polling Tick))
   \<and> uploadQueue (step polling Tick) = passes (step polling Tick) ! 0
   \<and> 0 < length (uploadQueue (step polling Tick))
   \<and> documentId (uploadQueue (step (step polling Tick) (Settled 0 (answer ''completed'' 100 None))) ! 0)
       = Str ''D1''"
proof -
  let ?added = "step initial (Upload 1000 ''report.pdf'')"
  let ?r = "\<lparr>job_id = Str ''J1'', document_id = Str ''D1''\<rparr>"
  let ?ticked = "step polling Tick"
  have a0: "documentId (last (uploadQueue ?added)) = Null"
    using documentId_lifecycle [of initial 1000 "''report.pdf''"] by blast
  have a1: "0 < length (uploadQueue ?added)"
    and a2: "id_item (uploadQueue ?added ! 0) = uploadId 1000"
    by (simp_all add: handleUpload_add_def initial_def)
  have p: "polling = step ?added (UploadOk 1000 ?r)"
    by (simp add: polling_def run_def)
  from documentId_lifecycle [where s = ?added and idx = 0 and now = 1000 and response = ?r] a1 a2
  have "status (uploadQueue (step ?added (UploadOk 1000 ?r)) ! 0) = ''queued''
      \<and> documentId (uploadQueue (step ?added (UploadOk 1000 ?r)) ! 0) = document_id ?r"
    by blast
  then have b: "status (uploadQueue polling ! 0) = ''queued''"
    "documentId (uploadQueue polling ! 0) = Str ''D1''"
    by (simp_all add: p del: step.simps)
  have c1: "0 < length (passes ?ticked)"
    and c2: "uploadQueue ?ticked = passes ?ticked ! 0"
    and c3: "0 < length (uploadQueue ?ticked)"
    by (simp_all add: polling_ticked report_queued_eval del: step.simps)
  have c4: "uploadQueue ?ticked ! 0 = uploadQueue polling ! 0"
    by (simp only: tick_registry)
  from documentId_lifecycle [where s = ?ticked and idx = 0 and k = 0
      and fetches = "answer ''completed'' 100 None"] c1 c2 c3
  have "documentId (uploadQueue (step ?ticked (Settled 0 (answer ''completed'' 100 None))) ! 0)
      = documentId (uploadQueue ?ticked ! 0)"
    by blast
  then have c: "documentId (uploadQueue (step ?ticked (Settled 0 (answer ''completed'' 100 None))) ! 0)
      = Str ''D1''"
    by (simp only: c4 b)
  from a0 a1 a2 b c1 c2 c3 c show ?thesis by blast
qed


text \<open>Claim C10, the frame of a pass.  The claim: a pass changes no id, filename, job id or
  document id, and leaves an entry that is \<open>completed\<close> or \<open>failed\<close> as it is.  The code
  at three runs in which the queue changes while a pass waits, the pass then setting
  the queue it computed from its own copy: the job id and the document id that the
  intake had set go back to \<open>null\<close>; an entry that the failed upload had marked
  \<open>failed\<close>, with its message, is \<open>uploading\<close> again, without the message; and the entry
  of a file submitted meanwhile is gone.\<close>

theorem stale_pass_overwrites_registry:
  "map jobId (uploadQueue (run upload_answered_during_pass)) = [Str ''J1'']
   \<and> map documentId (uploadQueue (run upload_answered_during_pass)) = [Str ''D1'']
   \<and> map jobId (uploadQueue (step (run upload_answered_during_pass) (Settled 0 rejected))) = [Null]
   \<and> map documentId (uploadQueue (step (run upload_answered_during_pass) (Settled 0 rejected)))
       = [Null]
   \<and> map status (uploadQueue (run upload_failed_during_pass)) = [''failed'']
   \<and> map message (uploadQueue (run upload_failed_during_pass)) = [Some ''Network Error'']
   \<and> map status (uploadQueue (step (run upload_failed_during_pass) (Settled 0 rejected)))
       = [''uploading'']
   \<and> map message (uploadQueue (step (run upload_failed_during_pass) (Settled 0 rejected))) = [None]
   \<and> map filename (uploadQueue (run upload_added_during_pass)) = [''report.pdf'', ''notes.txt'']
   \<and> map filename (uploadQueue (step (run upload_added_during_pass) (Settled 0 rejected)))
       = [''report.pdf'']"
proof -
  have a: "uploadQueue (step (run upload_answered_during_pass) (Settled 0 rejected)) = report_uploading"
    by (simp add: run_upload_answered_during_pass pass_settles_def updatedQueue_rejected)
  have b: "uploadQueue (step (run upload_failed_during_pass) (Settled 0 rejected)) = report_uploading"
    by (simp add: run_upload_failed_during_pass pass_settles_def updatedQueue_rejected)
  have c: "uploadQueue (step (run upload_added_during_pass) (Settled 0 rejected)) = report_uploading"
    by (simp add: run_upload_added_during_pass pass_settles_def updatedQueue_rejected)
  show ?thesis
    unfolding a b c
    by (simp add: run_upload_answered_during_pass run_upload_failed_during_pass
        run_upload_added_during_pass report_queued_eval report_uploading_eval
        handleUpload_failed_def handleUpload_add_def or_string_def)
qed

end
